theory Spec2Isabelle
  imports Complex_Main
begin

section \<open>Python values used by \<open>load_forecasting.py\<close>\<close>

text \<open>
  Exceptions of the interpreter and of the numeric libraries are values: a function that
  can raise returns \<open>py_error + 'a\<close>, with \<open>Inl\<close> for the exception.
\<close>

datatype py_error = IndexError | TypeError | ValueError | ZeroDivisionError | RuntimeError

text \<open>
  A slice bound of Python: a negative bound counts from the end, and every bound is
  clamped into \<open>0 .. len\<close>.
\<close>

definition slice_bound :: "nat \<Rightarrow> int \<Rightarrow> nat" where
  "slice_bound n i = (if i < 0 then nat (int n + i) else min n (nat i))"

text \<open>\<open>xs[a:b]\<close>: the elements from bound \<open>a\<close> up to bound \<open>b\<close>, none when \<open>b\<close> is not after \<open>a\<close>.\<close>

definition py_slice :: "'a list \<Rightarrow> int \<Rightarrow> int \<Rightarrow> 'a list" where
  "py_slice xs a b =
     (let lo = slice_bound (length xs) a; hi = slice_bound (length xs) b
      in take (hi - lo) (drop lo xs))"

text \<open>\<open>range(n)\<close>: \<open>0, 1, ..., n - 1\<close>, empty when \<open>n \<le> 0\<close>.\<close>

definition py_range :: "int \<Rightarrow> int list" where
  "py_range n = map int [0..<nat n]"

section \<open>The window dataset builder: \<open>create_dataset\<close>\<close>

text \<open>
  The body of the \<open>for i in range(len(df)-lookback)\<close> loop, run over the remaining
  indices with the two accumulators \<open>X\<close> and \<open>y\<close>; \<open>append\<close> adds at the end.
\<close>

fun create_dataset_loop ::
  "'a list \<Rightarrow> int \<Rightarrow> int list \<Rightarrow> 'a list list \<times> 'a list list \<Rightarrow> 'a list list \<times> 'a list list"
where
  "create_dataset_loop df lookback [] (X, y) = (X, y)"
| "create_dataset_loop df lookback (i # rest) (X, y) =
     (let feature = py_slice df i (i + lookback);
          target = py_slice df (i + 1) (i + lookback + 1)
      in create_dataset_loop df lookback rest (X @ [feature], y @ [target]))"

text \<open>
  \<open>create_dataset\<close> has no \<open>raise\<close> and no guard on \<open>lookback\<close>, and a slice never
  raises: every path returns the pair \<open>(X, y)\<close>.
\<close>

definition create_dataset :: "'a list \<Rightarrow> int \<Rightarrow> py_error + ('a list list \<times> 'a list list)" where
  "create_dataset df lookback =
     Inr (create_dataset_loop df lookback (py_range (int (length df) - lookback)) ([], []))"

section \<open>The dataset wrapper: \<open>UCIElectricityDataset\<close>\<close>

text \<open>A tensor is a nested list, one level per axis.\<close>

type_synonym 'a tensor2 = "'a list list"
type_synonym 'a tensor3 = "'a list list list"

text \<open>\<open>xs[idx]\<close> on a list: a negative index counts from the end, out of range raises.\<close>

definition py_index :: "'a list \<Rightarrow> int \<Rightarrow> py_error + 'a" where
  "py_index xs idx =
     (let n = int (length xs); j = (if idx < 0 then n + idx else idx)
      in if 0 \<le> j \<and> j < n then Inr (xs ! nat j) else Inl IndexError)"

text \<open>\<open>t.unsqueeze(1)\<close> on a tensor of shape \<open>[L]\<close>: shape \<open>[L, 1]\<close>.\<close>

definition unsqueeze1 :: "'a list \<Rightarrow> 'a tensor2" where
  "unsqueeze1 t = map (\<lambda>v. [v]) t"

record 'a UCIElectricityDataset =
  target :: "'a list list"
  features :: "'a list list"
  transform :: "('a list \<Rightarrow> 'a list) option"
  target_transform :: "('a list \<Rightarrow> 'a list) option"

text \<open>\<open>__init__\<close>; the two transforms default to \<open>None\<close>.\<close>

definition UCIElectricityDataset_init ::
  "'a list list \<Rightarrow> 'a list list \<Rightarrow> ('a list \<Rightarrow> 'a list) option \<Rightarrow> ('a list \<Rightarrow> 'a list) option
     \<Rightarrow> 'a UCIElectricityDataset"
where
  "UCIElectricityDataset_init fs tg tr ttr =
     \<lparr>target = tg, features = fs, transform = tr, target_transform = ttr\<rparr>"

text \<open>\<open>__len__\<close>\<close>

definition len_dataset :: "'a UCIElectricityDataset \<Rightarrow> nat" where
  "len_dataset self = length (features self)"

text \<open>
  \<open>__getitem__\<close>: \<open>if self.transform:\<close> is false for \<open>None\<close>. \<open>torch.Tensor(features)\<close>
  builds a tensor of the same length whose elements are the stored values converted to
  the tensor's element type; the conversion of one value is the parameter \<open>cast\<close>
  (\<open>to_float32\<close> below for the script's tensors).
\<close>

definition getitem ::
  "('a \<Rightarrow> 'b) \<Rightarrow> 'a UCIElectricityDataset \<Rightarrow> int \<Rightarrow> py_error + ('b tensor2 \<times> 'b tensor2)"
where
  "getitem cast self idx =
     (case py_index (features self) idx of
        Inl e \<Rightarrow> Inl e
      | Inr f0 \<Rightarrow>
          (case py_index (target self) idx of
             Inl e \<Rightarrow> Inl e
           | Inr t0 \<Rightarrow>
               (let f1 = (case transform self of None \<Rightarrow> f0 | Some tr \<Rightarrow> tr f0);
                    t1 = (case target_transform self of None \<Rightarrow> t0 | Some tr \<Rightarrow> tr t0);
                    f2 = map cast f1;
                    t2 = map cast t1
                in Inr (unsqueeze1 f2, unsqueeze1 t2))))"

subsection \<open>The element type of the tensors: IEEE 754 binary32\<close>

text \<open>
  \<open>torch.Tensor\<close> holds 32-bit floats, while the series holds 64-bit ones. A finite
  stored value is read as the real number it denotes and is rounded to the nearest
  binary32 value, a tie going to the even significand: 24 significant bits, exponents
  from \<open>-126\<close> (below it the spacing stays \<open>2^-149\<close>) to \<open>127\<close>, and a result of
  magnitude \<open>2^128\<close> or more is an infinity. The sign of zero is not kept.
\<close>

datatype float32 = Finite real | PlusInfinity | MinusInfinity

definition pow2 :: "int \<Rightarrow> real" where
  "pow2 e = (if 0 \<le> e then 2 ^ nat e else 1 / 2 ^ nat (- e))"

definition round_half_even :: "real \<Rightarrow> int" where
  "round_half_even x =
     (let n = \<lfloor>x\<rfloor>; d = x - of_int n
      in if d < 1 / 2 then n else if 1 / 2 < d then n + 1 else if even n then n else n + 1)"

text \<open>The greatest exponent \<open>e\<close> in \<open>-126 .. 127\<close> with \<open>2^e \<le> |x|\<close>, or \<open>-126\<close>.\<close>

definition float32_exponent :: "real \<Rightarrow> int" where
  "float32_exponent x =
     (case find (\<lambda>e. pow2 e \<le> \<bar>x\<bar>) (rev [- 126..127]) of Some e \<Rightarrow> e | None \<Rightarrow> - 126)"

definition to_float32 :: "real \<Rightarrow> float32" where
  "to_float32 x =
     (let ulp = pow2 (float32_exponent x - 23);
          r = of_int (round_half_even (x / ulp)) * ulp
      in if pow2 128 \<le> r then PlusInfinity
         else if r \<le> - pow2 128 then MinusInfinity
         else Finite r)"

section \<open>The batch source: \<open>DataLoader(dataset, batch_size=B, shuffle=False)\<close>\<close>

text \<open>
  The first error of a sequence of results, or all their values: what a Python loop that
  stops at the first exception leaves.
\<close>

fun collect :: "(py_error + 'b) list \<Rightarrow> py_error + 'b list" where
  "collect [] = Inr []"
| "collect (r # rs) =
     (case r of
        Inl e \<Rightarrow> Inl e
      | Inr v \<Rightarrow> (case collect rs of Inl e \<Rightarrow> Inl e | Inr vs \<Rightarrow> Inr (v # vs)))"

record 'a DataLoader =
  dataset :: "'a UCIElectricityDataset"
  batch_size :: int

text \<open>
  Modelled from the spec: \<open>torch.utils.data.DataLoader\<close> is library code, absent from the
  repository. A batch is a fixed-size group of samples, the last batch of a pass may be
  short, and the samples are not shuffled; a batch size that is not positive is rejected
  when the loader is built.
\<close>

definition DataLoader_init :: "'a UCIElectricityDataset \<Rightarrow> int \<Rightarrow> py_error + 'a DataLoader" where
  "DataLoader_init ds B = (if B \<le> 0 then Inl ValueError else Inr \<lparr>dataset = ds, batch_size = B\<rparr>)"

text \<open>
  Modelled from the spec: the index sequence cut into consecutive groups of \<open>B\<close>, the last
  group holding what is left.
\<close>

function batch_sampler :: "nat \<Rightarrow> 'b list \<Rightarrow> 'b list list" where
  "batch_sampler B xs =
     (if B = 0 \<or> xs = [] then [] else take B xs # batch_sampler B (drop B xs))"
  by pat_completeness auto
termination
  by (relation "measure (\<lambda>(B, xs). length xs)") auto

text \<open>
  Modelled from the spec: one batch is the samples \<open>dataset[i]\<close> of its indices, the
  histories stacked into one tensor of shape \<open>[b, L, 1]\<close> and the targets into another.
\<close>

definition fetch ::
  "('a \<Rightarrow> 'b) \<Rightarrow> 'a UCIElectricityDataset \<Rightarrow> int list \<Rightarrow> py_error + ('b tensor3 \<times> 'b tensor3)"
where
  "fetch cast ds idxs =
     (case collect (map (getitem cast ds) idxs) of
        Inl e \<Rightarrow> Inl e
      | Inr samples \<Rightarrow> Inr (map fst samples, map snd samples))"

text \<open>Modelled from the spec: one pass over the loader, every batch in index order.\<close>

definition dataloader_iter ::
  "('a \<Rightarrow> 'b) \<Rightarrow> 'a DataLoader \<Rightarrow> py_error + ('b tensor3 \<times> 'b tensor3) list"
where
  "dataloader_iter cast dl =
     collect (map (fetch cast (dataset dl))
                (batch_sampler (nat (batch_size dl)) (py_range (int (len_dataset (dataset dl))))))"

section \<open>The validation pass\<close>

text \<open>A numpy array of dimension 0, 1 or 2, as \<open>squeeze\<close> can return it.\<close>

datatype 'a ndarray = Nd0 'a | Nd1 "'a list" | Nd2 "'a list list"

text \<open>\<open>a.squeeze()\<close> on an array of shape \<open>[b, F]\<close>: every axis of size 1 is removed.\<close>

definition squeeze :: "'a tensor2 \<Rightarrow> 'a ndarray" where
  "squeeze a =
     (if length a = 1 then
        (if length (hd a) = 1 then Nd0 (hd (hd a)) else Nd1 (hd a))
      else if list_all (\<lambda>r. length r = 1) a then Nd1 (map hd a)
      else Nd2 a)"

text \<open>
  Iterating an array, as \<open>list.extend\<close> does: the items along the first axis; an array of
  dimension 0 raises \<open>TypeError: iteration over a 0-d array\<close>.
\<close>

fun np_iter :: "'a ndarray \<Rightarrow> py_error + 'a ndarray list" where
  "np_iter (Nd0 v) = Inl TypeError"
| "np_iter (Nd1 vs) = Inr (map Nd0 vs)"
| "np_iter (Nd2 rows) = Inr (map Nd1 rows)"

text \<open>The elements of a tensor of shape \<open>[b, L, F]\<close> in row-major order.\<close>

definition flatten3 :: "'a tensor3 \<Rightarrow> 'a list" where
  "flatten3 t = concat (concat t)"

text \<open>
  The arithmetic of the numeric libraries on 32-bit floats is their code, not the
  repository's: the operations the validation loop calls are the fields of a record the
  loop takes as a parameter. \<open>'b\<close> is the element type of the arrays, \<open>'r\<close> the type of
  the scalars the loop accumulates.
\<close>

record ('b, 'r) np_arith =
  np_abs_sub :: "'b \<Rightarrow> 'b \<Rightarrow> 'b"
  np_sum_all :: "'b tensor3 \<Rightarrow> 'r"
  np_radd_int :: "int \<Rightarrow> 'r \<Rightarrow> 'r"
  np_add :: "'r \<Rightarrow> 'r \<Rightarrow> 'r"
  np_truediv :: "'r \<Rightarrow> nat \<Rightarrow> 'r"

text \<open>
  Broadcasting along one axis, as torch and numpy do it: two axes of one length are paired
  off, an axis of length 1 is repeated against the other, and any other pair of lengths is
  an error (\<open>loss_fn\<close> on line 231 meets the two shapes first and raises \<open>RuntimeError\<close>).
\<close>

definition broadcast ::
  "('a \<Rightarrow> 'b \<Rightarrow> py_error + 'c) \<Rightarrow> 'a list \<Rightarrow> 'b list \<Rightarrow> py_error + 'c list"
where
  "broadcast f xs ys =
     (if length xs = length ys then collect (map2 f xs ys)
      else if length xs = 1 then collect (map (f (hd xs)) ys)
      else if length ys = 1 then collect (map (\<lambda>x. f x (hd ys)) xs)
      else Inl RuntimeError)"

text \<open>\<open>np.abs(y - p)\<close> for two arrays of three axes.\<close>

definition np_abs_diff ::
  "('b, 'r) np_arith \<Rightarrow> 'b tensor3 \<Rightarrow> 'b tensor3 \<Rightarrow> py_error + 'b tensor3"
where
  "np_abs_diff ops y p =
     broadcast (broadcast (broadcast (\<lambda>a b. Inr (np_abs_sub ops a b)))) y p"

definition np_size :: "'a tensor3 \<Rightarrow> nat" where
  "np_size t = length (flatten3 t)"

text \<open>\<open>t[:, -1, :]\<close>: the last timestep of every sample; no timestep raises.\<close>

definition last_timestep :: "'a tensor3 \<Rightarrow> py_error + 'a tensor2" where
  "last_timestep t = (if list_ex (\<lambda>s. s = []) t then Inl IndexError else Inr (map last t))"

text \<open>
  The accumulators of the validation loop. \<open>sum_error\<close> is \<open>None\<close> while it still is the
  Python integer \<open>0\<close> it was set to, and the library scalar it has become afterwards.
\<close>

record ('b, 'r) val_acc =
  sum_error :: "'r option"
  sum_len :: nat
  last_preds :: "'b ndarray list"

text \<open>
  The body of \<open>for val_batch in test_dataloader\<close>; \<open>model\<close> is the forward pass of the
  model on one batch, which can raise.
\<close>

definition val_step ::
  "('b, 'r) np_arith \<Rightarrow> ('b tensor3 \<Rightarrow> py_error + 'b tensor3) \<Rightarrow> ('b, 'r) val_acc
     \<Rightarrow> 'b tensor3 \<times> 'b tensor3 \<Rightarrow> py_error + ('b, 'r) val_acc"
where
  "val_step ops model acc val_batch =
     (let X_val_batch = fst val_batch;
          y_val_batch = snd val_batch
      in case model X_val_batch of
           Inl e \<Rightarrow> Inl e
         | Inr y_pred_val \<Rightarrow>
             (case np_abs_diff ops y_val_batch y_pred_val of
                Inl e \<Rightarrow> Inl e
              | Inr error_abs \<Rightarrow>
                  (let acc1 = acc\<lparr>sum_len := sum_len acc + np_size error_abs\<rparr>;
                       s = np_sum_all ops error_abs;
                       acc2 = acc1\<lparr>sum_error :=
                                Some (case sum_error acc1 of
                                        None \<Rightarrow> np_radd_int ops 0 s
                                      | Some t \<Rightarrow> np_add ops t s)\<rparr>
                   in case last_timestep y_pred_val of
                        Inl e \<Rightarrow> Inl e
                      | Inr lp \<Rightarrow>
                          (case np_iter (squeeze lp) of
                             Inl e \<Rightarrow> Inl e
                           | Inr items \<Rightarrow>
                               Inr (acc2\<lparr>last_preds := last_preds acc2 @ items\<rparr>)))))"

fun val_loop ::
  "('b, 'r) np_arith \<Rightarrow> ('b tensor3 \<Rightarrow> py_error + 'b tensor3) \<Rightarrow> ('b, 'r) val_acc
     \<Rightarrow> ('b tensor3 \<times> 'b tensor3) list \<Rightarrow> py_error + ('b, 'r) val_acc"
where
  "val_loop ops model acc [] = Inr acc"
| "val_loop ops model acc (b # bs) =
     (case val_step ops model acc b of
        Inl e \<Rightarrow> Inl e
      | Inr acc' \<Rightarrow> val_loop ops model acc' bs)"

text \<open>
  The accumulators are set afresh, every batch is visited, and the quotient is taken once
  at the end. When no batch was visited the quotient is \<open>0 / 0\<close> on Python integers, which
  raises; otherwise it is the library's division of its scalar by the count.
\<close>

definition validation_pass ::
  "('b, 'r) np_arith \<Rightarrow> ('b tensor3 \<Rightarrow> py_error + 'b tensor3) \<Rightarrow> ('b tensor3 \<times> 'b tensor3) list
     \<Rightarrow> py_error + ('r \<times> 'b ndarray list)"
where
  "validation_pass ops model batches =
     (case val_loop ops model \<lparr>sum_error = None, sum_len = 0, last_preds = []\<rparr> batches of
        Inl e \<Rightarrow> Inl e
      | Inr acc \<Rightarrow>
          (case sum_error acc of
             None \<Rightarrow> Inl ZeroDivisionError
           | Some s \<Rightarrow> Inr (np_truediv ops s (sum_len acc), last_preds acc)))"

section \<open>The train/evaluate loop\<close>

datatype mode = Training | Evaluating

text \<open>
  One optimisation step on a training batch: the forward pass in the model's current
  mode, then the loss, \<open>zero_grad\<close>, \<open>backward\<close> and the optimizer's step, which are the
  parameter \<open>optimize\<close>. Either can raise.
\<close>

definition train_batch ::
  "(mode \<Rightarrow> 'm \<Rightarrow> 'b tensor3 \<Rightarrow> py_error + 'b tensor3) \<Rightarrow> ('m \<Rightarrow> 'b tensor3 \<Rightarrow> 'b tensor3 \<Rightarrow> py_error + 'm)
     \<Rightarrow> mode \<Rightarrow> 'm \<Rightarrow> 'b tensor3 \<times> 'b tensor3 \<Rightarrow> py_error + 'm"
where
  "train_batch forward optimize md m batch =
     (let X_batch = fst batch; y_batch = snd batch
      in case forward md m X_batch of
           Inl e \<Rightarrow> Inl e
         | Inr y_pred \<Rightarrow> optimize m y_pred y_batch)"

fun train_batches ::
  "(mode \<Rightarrow> 'm \<Rightarrow> 'b tensor3 \<Rightarrow> py_error + 'b tensor3) \<Rightarrow> ('m \<Rightarrow> 'b tensor3 \<Rightarrow> 'b tensor3 \<Rightarrow> py_error + 'm)
     \<Rightarrow> mode \<Rightarrow> 'm \<Rightarrow> ('b tensor3 \<times> 'b tensor3) list \<Rightarrow> py_error + 'm"
where
  "train_batches forward optimize md m [] = Inr m"
| "train_batches forward optimize md m (batch # rest) =
     (case train_batch forward optimize md m batch of
        Inl e \<Rightarrow> Inl e
      | Inr m' \<Rightarrow> train_batches forward optimize md m' rest)"

text \<open>The training pass of one epoch: every batch of the training loader, in order.\<close>

definition training_pass ::
  "('a \<Rightarrow> 'b) \<Rightarrow> (mode \<Rightarrow> 'm \<Rightarrow> 'b tensor3 \<Rightarrow> py_error + 'b tensor3)
     \<Rightarrow> ('m \<Rightarrow> 'b tensor3 \<Rightarrow> 'b tensor3 \<Rightarrow> py_error + 'm)
     \<Rightarrow> 'a DataLoader \<Rightarrow> mode \<Rightarrow> 'm \<Rightarrow> py_error + 'm"
where
  "training_pass cast forward optimize train_dataloader md m =
     (case dataloader_iter cast train_dataloader of
        Inl e \<Rightarrow> Inl e
      | Inr tepoch \<Rightarrow> train_batches forward optimize md m tepoch)"

text \<open>The validation pass of one epoch: every batch of the validation loader.\<close>

definition validation ::
  "('a \<Rightarrow> 'b) \<Rightarrow> ('b, 'r) np_arith \<Rightarrow> (mode \<Rightarrow> 'm \<Rightarrow> 'b tensor3 \<Rightarrow> py_error + 'b tensor3)
     \<Rightarrow> 'a DataLoader \<Rightarrow> mode \<Rightarrow> 'm \<Rightarrow> py_error + ('r \<times> 'b ndarray list)"
where
  "validation cast ops forward test_dataloader md m =
     (case dataloader_iter cast test_dataloader of
        Inl e \<Rightarrow> Inl e
      | Inr val_batches \<Rightarrow> validation_pass ops (forward md m) val_batches)"

text \<open>
  The state the loop changes: the model's parameters and its mode (set by
  \<open>model.train()\<close> and \<open>model.eval()\<close>), the mode switches made so far with their epoch,
  the reported errors, and the predictions kept for the plot (unbound before the first
  validation pass).
\<close>

record ('m, 'b, 'r) run_state =
  model :: 'm
  mode :: mode
  modes :: "(int \<times> mode) list"
  mae_vals :: "(int \<times> 'r) list"
  kept_preds :: "'b ndarray list option"

text \<open>
  One epoch. \<open>epoch % EVAL_PERIOD\<close> raises for a zero period; for any other period it is
  \<open>mod\<close> on \<open>int\<close>, whose sign follows the divisor as Python's does.
\<close>

definition epoch_body ::
  "('a \<Rightarrow> 'b) \<Rightarrow> ('b, 'r) np_arith \<Rightarrow> (mode \<Rightarrow> 'm \<Rightarrow> 'b tensor3 \<Rightarrow> py_error + 'b tensor3)
     \<Rightarrow> ('m \<Rightarrow> 'b tensor3 \<Rightarrow> 'b tensor3 \<Rightarrow> py_error + 'm) \<Rightarrow> int
     \<Rightarrow> 'a DataLoader \<Rightarrow> 'a DataLoader \<Rightarrow> ('m, 'b, 'r) run_state \<Rightarrow> int
     \<Rightarrow> py_error + ('m, 'b, 'r) run_state"
where
  "epoch_body cast ops forward optimize EVAL_PERIOD train_dataloader test_dataloader st epoch =
     (let st1 = st\<lparr>mode := Training, modes := modes st @ [(epoch, Training)]\<rparr>
      in case training_pass cast forward optimize train_dataloader (mode st1) (model st1) of
           Inl e \<Rightarrow> Inl e
         | Inr m' \<Rightarrow>
             (let st2 = st1\<lparr>model := m'\<rparr>
              in if EVAL_PERIOD = 0 then Inl ZeroDivisionError
                 else if epoch mod EVAL_PERIOD = EVAL_PERIOD - 1 then
                   (let st3 = st2\<lparr>mode := Evaluating,
                                   modes := modes st2 @ [(epoch, Evaluating)]\<rparr>
                    in case validation cast ops forward test_dataloader (mode st3) (model st3) of
                         Inl e \<Rightarrow> Inl e
                       | Inr (mae_val, preds) \<Rightarrow>
                           Inr (st3\<lparr>mae_vals := mae_vals st3 @ [(epoch, mae_val)],
                                    kept_preds := Some preds\<rparr>))
                 else Inr st2))"

fun run_epochs ::
  "('a \<Rightarrow> 'b) \<Rightarrow> ('b, 'r) np_arith \<Rightarrow> (mode \<Rightarrow> 'm \<Rightarrow> 'b tensor3 \<Rightarrow> py_error + 'b tensor3)
     \<Rightarrow> ('m \<Rightarrow> 'b tensor3 \<Rightarrow> 'b tensor3 \<Rightarrow> py_error + 'm) \<Rightarrow> int
     \<Rightarrow> 'a DataLoader \<Rightarrow> 'a DataLoader \<Rightarrow> ('m, 'b, 'r) run_state \<Rightarrow> int list
     \<Rightarrow> py_error + ('m, 'b, 'r) run_state"
where
  "run_epochs cast ops forward optimize K trl tel st [] = Inr st"
| "run_epochs cast ops forward optimize K trl tel st (epoch # rest) =
     (case epoch_body cast ops forward optimize K trl tel st epoch of
        Inl e \<Rightarrow> Inl e
      | Inr st' \<Rightarrow> run_epochs cast ops forward optimize K trl tel st' rest)"

text \<open>
  \<open>for epoch in range(N_EPOCHS)\<close>, from the initial parameters; a module is built in
  training mode.
\<close>

definition train_loop ::
  "('a \<Rightarrow> 'b) \<Rightarrow> ('b, 'r) np_arith \<Rightarrow> (mode \<Rightarrow> 'm \<Rightarrow> 'b tensor3 \<Rightarrow> py_error + 'b tensor3)
     \<Rightarrow> ('m \<Rightarrow> 'b tensor3 \<Rightarrow> 'b tensor3 \<Rightarrow> py_error + 'm) \<Rightarrow> int \<Rightarrow> int
     \<Rightarrow> 'a DataLoader \<Rightarrow> 'a DataLoader \<Rightarrow> 'm \<Rightarrow> py_error + ('m, 'b, 'r) run_state"
where
  "train_loop cast ops forward optimize N_EPOCHS EVAL_PERIOD train_dataloader test_dataloader m0 =
     run_epochs cast ops forward optimize EVAL_PERIOD train_dataloader test_dataloader
       \<lparr>model = m0, mode = Training, modes = [], mae_vals = [], kept_preds = None\<rparr>
       (py_range N_EPOCHS)"

section \<open>Properties of the window dataset builder\<close>

lemma create_dataset_loop_eq:
  "create_dataset_loop df lookback idxs (X, y) =
     (X @ map (\<lambda>i. py_slice df i (i + lookback)) idxs,
      y @ map (\<lambda>i. py_slice df (i + 1) (i + lookback + 1)) idxs)"
  by (induction idxs arbitrary: X y) (simp_all add: Let_def)

lemma create_dataset_eq:
  "create_dataset df lookback =
     Inr (map (\<lambda>i. py_slice df i (i + lookback)) (py_range (int (length df) - lookback)),
          map (\<lambda>i. py_slice df (i + 1) (i + lookback + 1)) (py_range (int (length df) - lookback)))"
  by (simp add: create_dataset_def create_dataset_loop_eq)

lemma py_slice_window:
  assumes "i + L \<le> length S"
  shows "py_slice S (int i) (int i + int L) = take L (drop i S)"
proof -
  have lo: "slice_bound (length S) (int i) = i"
    using assms by (simp add: slice_bound_def)
  have "nat (int i + int L) = i + L"
    by (simp add: nat_add_distrib)
  then have hi: "slice_bound (length S) (int i + int L) = i + L"
    using assms by (simp add: slice_bound_def)
  show ?thesis
    by (simp add: py_slice_def Let_def lo hi)
qed

lemma py_slice_window_next:
  assumes "Suc (i + L) \<le> length S"
  shows "py_slice S (int i + 1) (int i + int L + 1) = take L (drop (Suc i) S)"
proof -
  have "py_slice S (int (Suc i)) (int (Suc i) + int L) = take L (drop (Suc i) S)"
    using assms by (intro py_slice_window) simp
  then show ?thesis by (simp add: add.commute add.left_commute)
qed

lemma py_slice_same: "py_slice xs a a = []"
  by (simp add: py_slice_def Let_def)

lemma py_range_nonpos: "n \<le> 0 \<Longrightarrow> py_range n = []"
  by (simp add: py_range_def)

lemma py_range_diff: "L \<le> N \<Longrightarrow> py_range (int N - int L) = map int [0..<N - L]"
  by (simp add: py_range_def nat_diff_distrib' flip: of_nat_diff)

lemma create_dataset_in_range:
  assumes "L \<le> length S"
  shows "create_dataset S (int L) =
           Inr (map (\<lambda>i. take L (drop i S)) [0..<length S - L],
                map (\<lambda>i. take L (drop (Suc i) S)) [0..<length S - L])"
proof -
  have X: "map (\<lambda>i. py_slice S i (i + int L)) (map int [0..<length S - L]) =
           map (\<lambda>i. take L (drop i S)) [0..<length S - L]"
    using assms by (simp add: py_slice_window)
  have "Suc (i + L) \<le> length S" if "i < length S - L" for i
    using that by simp
  then have y: "map (\<lambda>i. py_slice S (i + 1) (i + int L + 1)) (map int [0..<length S - L]) =
           map (\<lambda>i. take L (drop (Suc i) S)) [0..<length S - L]"
    by (simp add: py_slice_window_next)
  show ?thesis
    unfolding create_dataset_eq py_range_diff [OF assms] X y ..
qed

lemma create_dataset_out_of_range:
  assumes "int (length S) \<le> L"
  shows "create_dataset S L = Inr ([], [])"
proof -
  have "py_range (int (length S) - L) = []"
    using assms by (simp add: py_range_nonpos)
  then show ?thesis
    by (simp add: create_dataset_def)
qed

text \<open>
  Claim C1. For a series \<open>S\<close> of length \<open>N\<close> and a window length \<open>L\<close> with
  \<open>1 \<le> L < N\<close>, \<open>create_dataset\<close> returns exactly \<open>N - L\<close> histories and \<open>N - L\<close>
  targets; for every index \<open>i < N - L\<close> the history and the target have length \<open>L\<close>,
  \<open>history[k] = S[i + k]\<close> and \<open>target[k] = S[i + 1 + k]\<close>.
\<close>

theorem create_dataset_windows:
  fixes S :: "'a list" and L :: nat
  assumes "1 \<le> L" and "L < length S"
  shows "\<exists>X y. create_dataset S (int L) = Inr (X, y)
           \<and> length X = length S - L \<and> length y = length S - L
           \<and> (\<forall>i < length S - L.
                 length (X ! i) = L \<and> length (y ! i) = L
                 \<and> (\<forall>k < L. X ! i ! k = S ! (i + k) \<and> y ! i ! k = S ! (i + 1 + k)))"
proof -
  let ?X = "map (\<lambda>i. take L (drop i S)) [0..<length S - L]"
  let ?y = "map (\<lambda>i. take L (drop (Suc i) S)) [0..<length S - L]"
  have eq: "create_dataset S (int L) = Inr (?X, ?y)"
    using assms by (simp add: create_dataset_in_range)
  have win: "length (?X ! i) = L \<and> length (?y ! i) = L
               \<and> (\<forall>k < L. ?X ! i ! k = S ! (i + k) \<and> ?y ! i ! k = S ! (i + 1 + k))"
    if "i < length S - L" for i
  proof -
    have "L \<le> length S - i" and "L \<le> length S - Suc i"
      using that by simp_all
    then show ?thesis
      by (simp add: that min_absorb2)
  qed
  show ?thesis
    using eq win by (intro exI [of _ ?X] exI [of _ ?y]) simp
qed

theorem create_dataset_windows_witness:
  "(1::nat) \<le> 2 \<and> 2 < length [10, 20, 30, 40 :: int]
     \<and> create_dataset [10, 20, 30, 40 :: int] 2 = Inr ([[10, 20], [20, 30]], [[20, 30], [30, 40]])
     \<and> (\<exists>X y. create_dataset [10, 20, 30, 40 :: int] (int 2) = Inr (X, y)
           \<and> length X = length [10, 20, 30, 40 :: int] - 2 \<and> length y = length [10, 20, 30, 40 :: int] - 2
           \<and> (\<forall>i < length [10, 20, 30, 40 :: int] - 2.
                 length (X ! i) = 2 \<and> length (y ! i) = 2
                 \<and> (\<forall>k < 2. X ! i ! k = [10, 20, 30, 40 :: int] ! (i + k) \<and> y ! i ! k = [10, 20, 30, 40 :: int] ! (i + 1 + k))))"
proof -
  have h1: "(1::nat) \<le> 2" by simp
  have h2: "2 < length [10, 20, 30, 40 :: int]" by simp
  have ev: "create_dataset [10, 20, 30, 40 :: int] 2 = Inr ([[10, 20], [20, 30]], [[20, 30], [30, 40]])"
    by code_simp
  show ?thesis
    using create_dataset_windows [OF h1 h2] ev h1 h2 by blast
qed

text \<open>
  Claim C4. For a series \<open>S\<close> and a window length \<open>L \<ge> |S|\<close>, \<open>create_dataset\<close>
  raises nothing and returns no sample: both returned sequences are empty.
\<close>

theorem create_dataset_window_too_long:
  fixes S :: "'a list" and L :: int
  assumes "int (length S) \<le> L"
  shows "create_dataset S L = Inr ([], [])"
  using assms by (rule create_dataset_out_of_range)

theorem create_dataset_window_too_long_witness:
  "int (length [10, 20, 30 :: int]) \<le> 3 \<and> create_dataset [10, 20, 30 :: int] 3 = Inr ([], [])"
proof -
  have h: "int (length [10, 20, 30 :: int]) \<le> 3" by simp
  show ?thesis
    using h create_dataset_window_too_long [OF h] by simp
qed

text \<open>
  Claim C3 says that a window length \<open>L \<ge> |S|\<close> is rejected with a configuration error.
  For \<open>S = [1, 2, 3]\<close> and \<open>L = 5\<close> the builder raises nothing and returns the empty
  sample set.
\<close>

theorem create_dataset_raises_counterexample:
  "int (length [1, 2, 3 :: int]) \<le> 5
     \<and> \<not> isl (create_dataset [1, 2, 3 :: int] 5)
     \<and> create_dataset [1, 2, 3 :: int] 5 = Inr ([], [])"
  by (simp add: create_dataset_out_of_range)

text \<open>
  Claim C3, amended. For a series \<open>S\<close> and a window length \<open>L \<ge> |S|\<close>, building the
  window dataset signals no configuration error: \<open>create_dataset\<close> returns normally, and
  the dataset wrapper built from what it returns holds zero samples.
\<close>

theorem create_dataset_no_configuration_error:
  fixes S :: "'a list" and L :: int
  assumes "int (length S) \<le> L"
  shows "\<not> isl (create_dataset S L)
           \<and> (\<exists>X y. create_dataset S L = Inr (X, y)
                 \<and> len_dataset (UCIElectricityDataset_init X y None None) = 0)"
  using create_dataset_out_of_range [OF assms]
  by (simp add: len_dataset_def UCIElectricityDataset_init_def)

theorem create_dataset_no_configuration_error_witness:
  "int (length [1, 2 :: int]) \<le> 2
     \<and> \<not> isl (create_dataset [1, 2 :: int] 2)
     \<and> (\<exists>X y. create_dataset [1, 2 :: int] 2 = Inr (X, y)
           \<and> len_dataset (UCIElectricityDataset_init X y None None) = 0)"
proof -
  have h: "int (length [1, 2 :: int]) \<le> 2" by simp
  show ?thesis
    using h create_dataset_no_configuration_error [OF h] by simp
qed

text \<open>
  Claim C6. For a series \<open>S\<close> of length \<open>N\<close> and \<open>1 \<le> L < N\<close>, every history window is
  non-empty, and the first elements of the history windows, in sample order, are
  \<open>S[0 : N - L]\<close>.
\<close>

theorem create_dataset_first_elements:
  fixes S :: "'a list" and L :: nat
  assumes "1 \<le> L" and "L < length S"
  shows "\<exists>X y. create_dataset S (int L) = Inr (X, y)
           \<and> (\<forall>h \<in> set X. h \<noteq> [])
           \<and> map hd X = take (length S - L) S"
proof -
  let ?n = "length S - L"
  let ?X = "map (\<lambda>i. take L (drop i S)) [0..<?n]"
  let ?y = "map (\<lambda>i. take L (drop (Suc i) S)) [0..<?n]"
  have eq: "create_dataset S (int L) = Inr (?X, ?y)"
    using assms by (simp add: create_dataset_in_range)
  have ne: "take L (drop i S) \<noteq> []" if "i < ?n" for i
    using that assms by simp
  have "hd (take L (drop i S)) = S ! i" if "i < ?n" for i
    using that assms by (simp add: hd_drop_conv_nth)
  then have "map hd ?X = map (\<lambda>i. S ! i) [0..<?n]"
    by simp
  also have "\<dots> = take ?n (map (\<lambda>i. S ! i) [0..<length S])"
    by (simp add: take_map)
  also have "\<dots> = take ?n S"
    by (simp only: map_nth)
  finally have firsts: "map hd ?X = take ?n S" .
  show ?thesis
    using eq ne firsts by (intro exI [of _ ?X] exI [of _ ?y]) auto
qed

theorem create_dataset_first_elements_witness:
  "(1::nat) \<le> 2 \<and> 2 < length [10, 20, 30, 40, 50 :: int]
     \<and> (\<exists>X y. create_dataset [10, 20, 30, 40, 50 :: int] (int 2) = Inr (X, y)
           \<and> (\<forall>h \<in> set X. h \<noteq> [])
           \<and> map hd X = take (length [10, 20, 30, 40, 50 :: int] - 2) [10, 20, 30, 40, 50])
     \<and> take (length [10, 20, 30, 40, 50 :: int] - 2) [10, 20, 30, 40, 50 :: int] = [10, 20, 30]"
proof -
  have h1: "(1::nat) \<le> 2" by simp
  have h2: "2 < length [10, 20, 30, 40, 50 :: int]" by simp
  show ?thesis
    using create_dataset_first_elements [OF h1 h2] h1 h2 by simp
qed

text \<open>
  Claim C10. For every series \<open>S\<close>, \<open>create_dataset(S, 0)\<close> raises nothing and returns
  \<open>|S|\<close> histories and \<open>|S|\<close> targets, each of them the empty sequence: a window length
  of zero is not rejected.
\<close>

theorem create_dataset_zero_lookback:
  fixes S :: "'a list"
  shows "create_dataset S 0 = Inr (replicate (length S) [], replicate (length S) [])"
proof -
  have "map (\<lambda>i. []) (py_range (int (length S))) = replicate (length S) ([] :: 'a list)"
    by (simp add: py_range_def map_replicate_const)
  then show ?thesis
    by (simp add: create_dataset_eq py_slice_same)
qed

section \<open>Properties of the dataset wrapper\<close>

lemma py_index_valid:
  assumes "- int (length xs) \<le> idx" and "idx < int (length xs)"
  shows "py_index xs idx = Inr (xs ! nat (idx mod int (length xs)))"
proof (cases "idx < 0")
  case True
  have "idx mod int (length xs) = (idx + int (length xs)) mod int (length xs)"
    by simp
  also have "\<dots> = idx + int (length xs)"
    using True assms by (intro mod_pos_pos_trivial) simp_all
  finally have "idx mod int (length xs) = int (length xs) + idx"
    by simp
  with True assms show ?thesis
    by (simp add: py_index_def Let_def)
next
  case False
  then have "idx mod int (length xs) = idx"
    using assms by simp
  with False assms show ?thesis
    by (simp add: py_index_def Let_def)
qed

lemma getitem_no_transform:
  assumes "transform ds = None" and "target_transform ds = None"
    and "length (target ds) = length (features ds)"
    and "- int (length (features ds)) \<le> idx" and "idx < int (length (features ds))"
  shows "getitem cast ds idx =
           Inr (unsqueeze1 (map cast (features ds ! nat (idx mod int (length (features ds))))),
                unsqueeze1 (map cast (target ds ! nat (idx mod int (length (features ds))))))"
  using assms by (simp add: getitem_def py_index_valid)

subsection \<open>Rounding to binary32\<close>

text \<open>
  The exponent of a value is found from the two powers of two around it, without the
  search.
\<close>

lemma pow2_powr: "pow2 e = 2 powr (of_int e)"
  by (simp add: pow2_def powr_int)

lemma pow2_mono: "e \<le> e' \<Longrightarrow> pow2 e \<le> pow2 e'"
  by (simp add: pow2_powr)

lemma find_skip: "(\<And>x. x \<in> set xs \<Longrightarrow> \<not> P x) \<Longrightarrow> find P (xs @ ys) = find P ys"
  by (induction xs) simp_all

lemma float32_exponent_eq:
  assumes "- 126 \<le> e" and "e \<le> 127" and "pow2 e \<le> \<bar>x\<bar>" and "\<bar>x\<bar> < pow2 (e + 1)"
  shows "float32_exponent x = e"
proof -
  have "[- 126..127] = [- 126..e - 1] @ e # [e + 1..127]"
    using assms(1,2) by (rule upto_split3)
  then have split: "rev [- 126..127] = rev [e + 1..127] @ e # rev [- 126..e - 1]"
    by simp
  have "\<not> pow2 e' \<le> \<bar>x\<bar>" if "e' \<in> set (rev [e + 1..127])" for e'
  proof -
    have "e + 1 \<le> e'" using that by simp
    then have "pow2 (e + 1) \<le> pow2 e'" by (rule pow2_mono)
    with assms(4) show ?thesis by simp
  qed
  then have "find (\<lambda>e. pow2 e \<le> \<bar>x\<bar>) (rev [- 126..127])
               = find (\<lambda>e. pow2 e \<le> \<bar>x\<bar>) (e # rev [- 126..e - 1])"
    unfolding split by (rule find_skip)
  also have "\<dots> = Some e"
    using assms(3) by simp
  finally show ?thesis
    by (simp add: float32_exponent_def)
qed

lemma to_float32_16777217: "to_float32 16777217 = Finite 16777216"
proof -
  have "float32_exponent 16777217 = 24"
    by (rule float32_exponent_eq) (simp_all add: pow2_def)
  then show ?thesis
    by (simp add: to_float32_def pow2_def round_half_even_def Let_def)
qed

lemma to_float32_1: "to_float32 1 = Finite 1"
proof -
  have "float32_exponent 1 = 0"
    by (rule float32_exponent_eq) (simp_all add: pow2_def)
  then show ?thesis
    by (simp add: to_float32_def pow2_def round_half_even_def Let_def)
qed

lemma to_float32_2: "to_float32 2 = Finite 2"
proof -
  have "float32_exponent 2 = 1"
    by (rule float32_exponent_eq) (simp_all add: pow2_def)
  then show ?thesis
    by (simp add: to_float32_def pow2_def round_half_even_def Let_def)
qed

lemma to_float32_4: "to_float32 4 = Finite 4"
proof -
  have "float32_exponent 4 = 2"
    by (rule float32_exponent_eq) (simp_all add: pow2_def)
  then show ?thesis
    by (simp add: to_float32_def pow2_def round_half_even_def Let_def)
qed

lemma to_float32_tenth: "to_float32 (1 / 10) = Finite (13421773 / 134217728)"
proof -
  have "float32_exponent (1 / 10) = - 4"
    by (rule float32_exponent_eq) (simp_all add: pow2_def)
  then show ?thesis
    by (simp add: to_float32_def pow2_def round_half_even_def Let_def)
qed

text \<open>
  Claim C7 says that the retrieved values are the stored ones, unchanged. The stored
  value \<open>16777217\<close> (\<open>2^24 + 1\<close>) is no 32-bit float: the tensor built from the history
  \<open>[16777217, 1]\<close> holds \<open>16777216\<close> in its place.
\<close>

theorem getitem_values_unchanged_counterexample:
  "getitem to_float32 (UCIElectricityDataset_init [[16777217, 1]] [[1, 16777217]] None None) 0
     = Inr ([[Finite 16777216], [Finite 1]], [[Finite 1], [Finite 16777216]])
   \<and> Finite 16777216 \<noteq> Finite 16777217"
proof -
  note big = to_float32_16777217 and one = to_float32_1
  have "getitem to_float32 (UCIElectricityDataset_init [[16777217, 1]] [[1, 16777217]] None None) 0
     = Inr ([[to_float32 16777217], [to_float32 1]], [[to_float32 1], [to_float32 16777217]])"
    by (simp add: getitem_def UCIElectricityDataset_init_def py_index_def unsqueeze1_def)
  then show ?thesis
    by (simp add: big one)
qed

text \<open>
  Claim C7, amended. With no transform configured and an index \<open>idx\<close> that is valid for
  the stored sequences (\<open>-n \<le> idx < n\<close>, a negative index counting from the end),
  \<open>__getitem__\<close> returns the stored history and target of that position, each reshaped
  from length \<open>L\<close> to shape \<open>[L, 1]\<close>: entry \<open>k\<close> of the result is the one-element row
  holding entry \<open>k\<close> of the stored sequence converted to the tensor's element type (for
  the script's tensors, rounded to the nearest 32-bit float).
\<close>

theorem getitem_converts_and_adds_feature_axis:
  fixes fs tg :: "'a list list" and idx :: int and cast :: "'a \<Rightarrow> 'b"
  assumes "length tg = length fs"
    and "- int (length fs) \<le> idx" and "idx < int (length fs)"
  shows "\<exists>F T. getitem cast (UCIElectricityDataset_init fs tg None None) idx = Inr (F, T)
           \<and> length F = length (fs ! nat (idx mod int (length fs)))
           \<and> length T = length (tg ! nat (idx mod int (length fs)))
           \<and> (\<forall>k < length F. F ! k = [cast (fs ! nat (idx mod int (length fs)) ! k)])
           \<and> (\<forall>k < length T. T ! k = [cast (tg ! nat (idx mod int (length fs)) ! k)])"
proof -
  let ?ds = "UCIElectricityDataset_init fs tg None None"
  have "getitem cast ?ds idx =
          Inr (unsqueeze1 (map cast (fs ! nat (idx mod int (length fs)))),
               unsqueeze1 (map cast (tg ! nat (idx mod int (length fs)))))"
    using assms getitem_no_transform [of ?ds idx cast]
    by (simp add: UCIElectricityDataset_init_def)
  then show ?thesis
    by (simp add: unsqueeze1_def)
qed

theorem getitem_converts_and_adds_feature_axis_witness:
  "getitem to_float32 (UCIElectricityDataset_init [[1, 2], [2, 1 / 10]] [[2, 3], [1 / 10, 4]] None None) 1
     = Inr ([[Finite 2], [Finite (13421773 / 134217728)]], [[Finite (13421773 / 134217728)], [Finite 4]])
   \<and> (\<exists>F T. getitem to_float32
               (UCIElectricityDataset_init [[1, 2], [2, 1 / 10]] [[2, 3], [1 / 10, 4]] None None) 1
             = Inr (F, T)
           \<and> length F = length ([[1, 2], [2, 1 / 10 :: real]] ! nat (1 mod int (length [[1, 2], [2, 1 / 10 :: real]])))
           \<and> length T = length ([[2, 3], [1 / 10, 4 :: real]] ! nat (1 mod int (length [[1, 2], [2, 1 / 10 :: real]])))
           \<and> (\<forall>k < length F. F ! k
                 = [to_float32 ([[1, 2], [2, 1 / 10]] ! nat (1 mod int (length [[1, 2], [2, 1 / 10 :: real]])) ! k)])
           \<and> (\<forall>k < length T. T ! k
                 = [to_float32 ([[2, 3], [1 / 10, 4]] ! nat (1 mod int (length [[1, 2], [2, 1 / 10 :: real]])) ! k)]))"
proof -
  have h1: "length [[2, 3], [1 / 10, 4 :: real]] = length [[1, 2], [2, 1 / 10 :: real]]" by simp
  have h2: "- int (length [[1, 2], [2, 1 / 10 :: real]]) \<le> 1" by simp
  have h3: "1 < int (length [[1, 2], [2, 1 / 10 :: real]])" by simp
  note two = to_float32_2 and four = to_float32_4 and tenth = to_float32_tenth
  have "getitem to_float32 (UCIElectricityDataset_init [[1, 2], [2, 1 / 10]] [[2, 3], [1 / 10, 4]] None None) 1
     = Inr ([[to_float32 2], [to_float32 (1 / 10)]], [[to_float32 (1 / 10)], [to_float32 4]])"
    by (simp add: getitem_def UCIElectricityDataset_init_def py_index_def unsqueeze1_def)
  then have ev: "getitem to_float32
       (UCIElectricityDataset_init [[1, 2], [2, 1 / 10]] [[2, 3], [1 / 10, 4]] None None) 1
     = Inr ([[Finite 2], [Finite (13421773 / 134217728)]], [[Finite (13421773 / 134217728)], [Finite 4]])"
    by (simp only: two four tenth)
  show ?thesis
    using getitem_converts_and_adds_feature_axis [OF h1 h2 h3, where cast = to_float32] ev
    by blast
qed

section \<open>Properties of the batch source\<close>

declare batch_sampler.simps [simp del]


lemma batch_sampler_Nil: "batch_sampler B [] = []"
  by (simp add: batch_sampler.simps)

lemma batch_sampler_Cons:
  "0 < B \<Longrightarrow> xs \<noteq> [] \<Longrightarrow> batch_sampler B xs = take B xs # batch_sampler B (drop B xs)"
  by (subst batch_sampler.simps) simp

lemma concat_batch_sampler: "0 < B \<Longrightarrow> concat (batch_sampler B xs) = xs"
proof (induction B xs rule: batch_sampler.induct)
  case (1 B xs)
  show ?case
  proof (cases "xs = []")
    case True
    then show ?thesis by (simp add: batch_sampler_Nil)
  next
    case False
    with 1 show ?thesis by (simp add: batch_sampler_Cons)
  qed
qed

lemma ceil_div_step:
  fixes n B :: nat
  assumes "0 < B" and "0 < n"
  shows "(n + B - 1) div B = Suc ((n - 1) div B)"
proof -
  obtain m where n: "n = Suc m"
    using assms(2) by (cases n) simp_all
  have "(m + B) div B = Suc (m div B)"
    using assms(1) by (simp add: div_add_self2)
  then show ?thesis
    by (simp add: n)
qed

lemma length_batch_sampler:
  "0 < B \<Longrightarrow> length (batch_sampler B xs) = (length xs + B - 1) div B"
proof (induction B xs rule: batch_sampler.induct)
  case (1 B xs)
  show ?case
  proof (cases "xs = []")
    case True
    with 1 show ?thesis by (simp add: batch_sampler_Nil)
  next
    case False
    then have pos: "0 < length xs" by simp
    have IH: "length (batch_sampler B (drop B xs)) = (length xs - B + B - 1) div B"
      using 1 False by simp
    have "(length xs - B + B - 1) div B = (length xs - 1) div B"
    proof (cases "B \<le> length xs")
      case True
      then show ?thesis by simp
    next
      case False
      then have "length xs - 1 < B" and "length xs - B + B - 1 < B"
        using \<open>0 < B\<close> by simp_all
      then show ?thesis by simp
    qed
    with IH have "length (batch_sampler B xs) = Suc ((length xs - 1) div B)"
      using False \<open>0 < B\<close> by (simp add: batch_sampler_Cons)
    then show ?thesis
      using ceil_div_step [OF \<open>0 < B\<close> pos] by simp
  qed
qed

lemma nth_batch_sampler:
  "0 < B \<Longrightarrow> j < length (batch_sampler B xs) \<Longrightarrow> batch_sampler B xs ! j = take B (drop (j * B) xs)"
proof (induction B xs arbitrary: j rule: batch_sampler.induct)
  case (1 B xs)
  show ?case
  proof (cases "xs = []")
    case True
    with 1(3) show ?thesis by (simp add: batch_sampler_Nil)
  next
    case False
    show ?thesis
    proof (cases j)
      case 0
      with False 1(2) show ?thesis by (simp add: batch_sampler_Cons)
    next
      case (Suc j')
      with 1(3) False 1(2) have "j' < length (batch_sampler B (drop B xs))"
        by (simp add: batch_sampler_Cons)
      with 1(1) [of j'] False 1(2) have "batch_sampler B (drop B xs) ! j' = take B (drop (j' * B) (drop B xs))"
        by simp
      with Suc False 1(2) show ?thesis
        by (simp add: batch_sampler_Cons add.commute)
    qed
  qed
qed

lemma length_full_batch:
  assumes "0 < B" and "j < length xs div B"
  shows "j < length (batch_sampler B xs) \<and> length (batch_sampler B xs ! j) = B"
proof -
  have "Suc j \<le> length xs div B" using assms by simp
  then have "Suc j * B \<le> length xs div B * B"
    by (rule mult_le_mono1)
  also have "\<dots> \<le> length xs" by simp
  finally have le: "j * B + B \<le> length xs" by simp
  have "length xs div B \<le> (length xs + B - 1) div B"
    using assms by (intro div_le_mono) simp
  with assms have j: "j < length (batch_sampler B xs)"
    by (simp add: length_batch_sampler)
  have "B \<le> length xs - j * B"
    using le by simp
  with j assms show ?thesis
    by (simp add: nth_batch_sampler min_absorb2)
qed

lemma length_last_batch:
  assumes "0 < B" and "length xs mod B \<noteq> 0"
  shows "length (last (batch_sampler B xs)) = length xs mod B"
proof -
  let ?n = "length xs"
  let ?q = "?n div B"
  let ?r = "?n mod B"
  have pos: "0 < ?n" using assms by (cases "?n = 0") simp_all
  have "?n - 1 = ?q * B + (?r - 1)"
  proof -
    have "?n = ?q * B + ?r" by simp
    then have "?n - 1 = ?q * B + ?r - 1" by simp
    also have "\<dots> = ?q * B + (?r - 1)" using assms by simp
    finally show ?thesis .
  qed
  moreover have "?r - 1 < B"
    using assms by (simp add: less_imp_diff_less)
  ultimately have "(?n - 1) div B = ?q"
    by simp
  then have len: "length (batch_sampler B xs) = Suc ?q"
    using assms(1) ceil_div_step [OF assms(1) pos] by (simp add: length_batch_sampler)
  then have ne: "batch_sampler B xs \<noteq> []" by auto
  have "last (batch_sampler B xs) = batch_sampler B xs ! ?q"
    using len ne by (simp add: last_conv_nth)
  also have "\<dots> = take B (drop (?q * B) xs)"
    using assms len by (simp add: nth_batch_sampler)
  finally have "length (last (batch_sampler B xs)) = min B (?n - ?q * B)"
    by simp
  also have "?n - ?q * B = ?r"
    by (simp add: minus_div_mult_eq_mod)
  finally show ?thesis
    using assms by (simp add: min_absorb2 less_imp_le)
qed

lemma collect_map_Inr:
  "(\<And>x. x \<in> set xs \<Longrightarrow> f x = Inr (g x)) \<Longrightarrow> collect (map f xs) = Inr (map g xs)"
  by (induction xs) simp_all

lemma zip_fst_snd_map: "zip (map (fst \<circ> g) xs) (map (snd \<circ> g) xs) = map g xs"
  by (induction xs) simp_all

lemma getitem_in_range:
  assumes "length (target ds) = length (features ds)" and "i < length (features ds)"
  shows "\<exists>s. getitem cast ds (int i) = Inr s"
  using assms by (simp add: getitem_def py_index_def Let_def)

lemma batch_sampler_subset:
  assumes "0 < B" and "c \<in> set (batch_sampler B xs)"
  shows "set c \<subseteq> set xs"
proof -
  have "set c \<subseteq> set (concat (batch_sampler B xs))"
    using assms(2) by auto
  then show ?thesis
    using assms(1) by (simp add: concat_batch_sampler)
qed

lemma dataloader_iter_eq:
  fixes ds :: "'a UCIElectricityDataset" and cast :: "'a \<Rightarrow> 'b"
  assumes B: "0 < B"
    and g: "\<And>i. i < len_dataset ds \<Longrightarrow> getitem cast ds (int i) = Inr (g (int i))"
  shows "dataloader_iter cast \<lparr>dataset = ds, batch_size = int B\<rparr> =
           Inr (map (\<lambda>c. (map (fst \<circ> g) c, map (snd \<circ> g) c))
                  (batch_sampler B (py_range (int (len_dataset ds)))))"
proof -
  let ?idx = "py_range (int (len_dataset ds))"
  have valid: "getitem cast ds i = Inr (g i)" if "i \<in> set ?idx" for i
    using that g by (auto simp: py_range_def)
  have "fetch cast ds c = Inr (map (fst \<circ> g) c, map (snd \<circ> g) c)"
    if "c \<in> set (batch_sampler B ?idx)" for c
  proof -
    have "set c \<subseteq> set ?idx"
      using B that by (rule batch_sampler_subset)
    then have "collect (map (getitem cast ds) c) = Inr (map g c)"
      by (intro collect_map_Inr valid) auto
    then show ?thesis
      by (simp add: fetch_def)
  qed
  then have "collect (map (fetch cast ds) (batch_sampler B ?idx)) =
               Inr (map (\<lambda>c. (map (fst \<circ> g) c, map (snd \<circ> g) c)) (batch_sampler B ?idx))"
    by (rule collect_map_Inr)
  then show ?thesis
    by (simp add: dataloader_iter_def)
qed

text \<open>
  Claim C5. For a batch size \<open>B > 0\<close> and a dataset of \<open>M\<close> samples, one pass of the
  unshuffled batch source yields \<open>\<lceil>M / B\<rceil>\<close> batches; each of the first \<open>\<lfloor>M / B\<rfloor>\<close> holds \<open>B\<close>
  samples, and when \<open>B\<close> does not divide \<open>M\<close> the last holds \<open>M mod B\<close>; the batches
  concatenated in order are the samples \<open>dataset[0], ..., dataset[M - 1]\<close> in index order.
  The pass is a function of the loader alone, and every epoch of the loop evaluates it on
  the same loader, so every epoch sees the same batches.
\<close>

theorem dataloader_batches:
  fixes ds :: "'a UCIElectricityDataset" and B :: nat and cast :: "'a \<Rightarrow> 'b"
  assumes "0 < B" and "length (target ds) = length (features ds)"
  shows "\<exists>dl bs. DataLoader_init ds (int B) = Inr dl \<and> dataloader_iter cast dl = Inr bs
           \<and> length bs = (len_dataset ds + B - 1) div B
           \<and> (\<forall>j < len_dataset ds div B. length (fst (bs ! j)) = B \<and> length (snd (bs ! j)) = B)
           \<and> (len_dataset ds mod B \<noteq> 0 \<longrightarrow>
                 length (fst (last bs)) = len_dataset ds mod B
                 \<and> length (snd (last bs)) = len_dataset ds mod B)
           \<and> map (\<lambda>i. getitem cast ds (int i)) [0..<len_dataset ds]
                 = map Inr (zip (concat (map fst bs)) (concat (map snd bs)))"
proof -
  let ?M = "len_dataset ds"
  let ?idx = "py_range (int ?M)"
  let ?cs = "batch_sampler B ?idx"
  define g where "g i = projr (getitem cast ds i)" for i
  have g: "getitem cast ds (int i) = Inr (g (int i))" if "i < ?M" for i
    using getitem_in_range [OF assms(2), where i = i and cast = cast] that by (auto simp: g_def len_dataset_def)
  let ?h = "\<lambda>c. (map (fst \<circ> g) c, map (snd \<circ> g) c)"
  let ?bs = "map ?h ?cs"
  let ?dl = "\<lparr>dataset = ds, batch_size = int B\<rparr>"
  have len_idx: "length ?idx = ?M"
    by (simp add: py_range_def)
  have init: "DataLoader_init ds (int B) = Inr ?dl"
    using assms(1) by (simp add: DataLoader_init_def)
  have iter: "dataloader_iter cast ?dl = Inr ?bs"
    using assms(1) g by (rule dataloader_iter_eq)
  have count: "length ?bs = (?M + B - 1) div B"
    using assms(1) by (simp add: length_batch_sampler len_idx)
  have full: "length (fst (?bs ! j)) = B \<and> length (snd (?bs ! j)) = B" if "j < ?M div B" for j
    using length_full_batch [OF assms(1), of j ?idx] that by (simp add: len_idx)
  have rest: "length (fst (last ?bs)) = ?M mod B \<and> length (snd (last ?bs)) = ?M mod B"
    if "?M mod B \<noteq> 0"
  proof -
    have "length (last ?cs) = ?M mod B"
      using length_last_batch [OF assms(1), of ?idx] that by (simp add: len_idx)
    moreover have "?cs \<noteq> []"
    proof -
      have "0 < ?M" using that by (cases "?M = 0") simp_all
      then have "?idx \<noteq> []" using len_idx by auto
      then show ?thesis
        using assms(1) by (simp add: batch_sampler_Cons)
    qed
    ultimately show ?thesis
      by (simp add: last_map)
  qed
  have "concat (map fst ?bs) = map (fst \<circ> g) (concat ?cs)"
    by (simp add: map_concat comp_def)
  then have cf: "concat (map fst ?bs) = map (fst \<circ> g) ?idx"
    using assms(1) by (simp add: concat_batch_sampler)
  have "concat (map snd ?bs) = map (snd \<circ> g) (concat ?cs)"
    by (simp add: map_concat comp_def)
  then have cs: "concat (map snd ?bs) = map (snd \<circ> g) ?idx"
    using assms(1) by (simp add: concat_batch_sampler)
  have z: "zip (concat (map fst ?bs)) (concat (map snd ?bs)) = map g ?idx"
    unfolding cf cs by (rule zip_fst_snd_map)
  have "map (\<lambda>i. getitem cast ds (int i)) [0..<?M] = map (\<lambda>i. Inr (g (int i))) [0..<?M]"
    using g by simp
  also have "\<dots> = map Inr (map g ?idx)"
    by (simp add: py_range_def comp_def)
  finally have order: "map (\<lambda>i. getitem cast ds (int i)) [0..<?M]
          = map Inr (zip (concat (map fst ?bs)) (concat (map snd ?bs)))"
    unfolding z .
  show ?thesis
    using init iter count full rest order by blast
qed

theorem dataloader_batches_witness:
  "0 < (2::nat)
     \<and> length (target 
          \<lparr>target = [[2, 3], [3, 4], [4, 5 :: real]], features = [[1, 2], [2, 3], [3, 4]], transform = None, target_transform = None\<rparr>) = length (features 
          \<lparr>target = [[2, 3], [3, 4], [4, 5 :: real]], features = [[1, 2], [2, 3], [3, 4]], transform = None, target_transform = None\<rparr>)
     \<and> (\<exists>dl bs. DataLoader_init 
          \<lparr>target = [[2, 3], [3, 4], [4, 5 :: real]], features = [[1, 2], [2, 3], [3, 4]], transform = None, target_transform = None\<rparr> (int 2) = Inr dl \<and> dataloader_iter to_float32 dl = Inr bs
           \<and> length bs = (len_dataset 
          \<lparr>target = [[2, 3], [3, 4], [4, 5 :: real]], features = [[1, 2], [2, 3], [3, 4]], transform = None, target_transform = None\<rparr> + 2 - 1) div 2
           \<and> (\<forall>j < len_dataset 
          \<lparr>target = [[2, 3], [3, 4], [4, 5 :: real]], features = [[1, 2], [2, 3], [3, 4]], transform = None, target_transform = None\<rparr> div 2. length (fst (bs ! j)) = 2 \<and> length (snd (bs ! j)) = 2)
           \<and> (len_dataset 
          \<lparr>target = [[2, 3], [3, 4], [4, 5 :: real]], features = [[1, 2], [2, 3], [3, 4]], transform = None, target_transform = None\<rparr> mod 2 \<noteq> 0 \<longrightarrow>
                 length (fst (last bs)) = len_dataset 
          \<lparr>target = [[2, 3], [3, 4], [4, 5 :: real]], features = [[1, 2], [2, 3], [3, 4]], transform = None, target_transform = None\<rparr> mod 2
                 \<and> length (snd (last bs)) = len_dataset 
          \<lparr>target = [[2, 3], [3, 4], [4, 5 :: real]], features = [[1, 2], [2, 3], [3, 4]], transform = None, target_transform = None\<rparr> mod 2)
           \<and> map (\<lambda>i. getitem to_float32 
          \<lparr>target = [[2, 3], [3, 4], [4, 5 :: real]], features = [[1, 2], [2, 3], [3, 4]], transform = None, target_transform = None\<rparr> (int i)) [0..<len_dataset 
          \<lparr>target = [[2, 3], [3, 4], [4, 5 :: real]], features = [[1, 2], [2, 3], [3, 4]], transform = None, target_transform = None\<rparr>]
                 = map Inr (zip (concat (map fst bs)) (concat (map snd bs))))"
proof -
  have h1: "0 < (2::nat)" by simp
  have h2: "length (target 
          \<lparr>target = [[2, 3], [3, 4], [4, 5 :: real]], features = [[1, 2], [2, 3], [3, 4]], transform = None, target_transform = None\<rparr>) = length (features 
          \<lparr>target = [[2, 3], [3, 4], [4, 5 :: real]], features = [[1, 2], [2, 3], [3, 4]], transform = None, target_transform = None\<rparr>)"
    by simp
  show ?thesis
    using h1 h2 dataloader_batches [OF h1 h2, where cast = to_float32] by blast
qed

section \<open>The collected last-timestep predictions\<close>

text \<open>
  When every batch holds a number of samples other than one and the model gives one
  feature per timestep, a pass that completes has appended, batch after batch and sample
  after sample, the prediction at the last timestep of each sample. A batch of exactly
  one sample with one feature makes \<open>squeeze\<close> return an array of dimension 0, and the
  step raises.
\<close>

lemma val_step_last_preds:
  assumes "val_step ops f acc b = Inr acc'"
    and "f (fst b) = Inr p"
    and "length p \<noteq> 1"
    and "\<forall>s \<in> set p. length (last s) = 1"
  shows "last_preds acc' = last_preds acc @ map (\<lambda>s. Nd0 (hd (last s))) p"
proof -
  let ?lp = "map last p"
  have sq: "squeeze ?lp = Nd1 (map hd ?lp)"
    using assms(3,4) by (simp add: squeeze_def list_all_iff)
  have "last_timestep p = Inr ?lp"
    using assms(1,2)
    by (auto simp: val_step_def last_timestep_def Let_def split: if_splits sum.splits)
  then show ?thesis
    using assms(1,2) sq by (auto simp: val_step_def Let_def comp_def split: sum.splits)
qed

lemma val_loop_last_preds:
  assumes "val_loop ops f acc bs = Inr acc'"
    and "map (\<lambda>b. f (fst b)) bs = map Inr ps"
    and "\<forall>p \<in> set ps. length p \<noteq> 1"
    and "\<forall>p \<in> set ps. \<forall>s \<in> set p. length (last s) = 1"
  shows "last_preds acc' = last_preds acc @ map (\<lambda>s. Nd0 (hd (last s))) (concat ps)"
  using assms
proof (induction bs arbitrary: acc ps)
  case Nil
  then show ?case by simp
next
  case (Cons b bs)
  from Cons.prems(2) obtain p ps' where ps: "ps = p # ps'" and p: "f (fst b) = Inr p"
    and rest_ps: "map (\<lambda>b. f (fst b)) bs = map Inr ps'"
    by (cases ps) auto
  from Cons.prems(1) obtain acc1 where step: "val_step ops f acc b = Inr acc1"
    and rest: "val_loop ops f acc1 bs = Inr acc'"
    by (auto split: sum.splits)
  have "length p \<noteq> 1" and "\<forall>s \<in> set p. length (last s) = 1"
    using Cons.prems(3,4) by (simp_all add: ps)
  with step p have one: "last_preds acc1 = last_preds acc @ map (\<lambda>s. Nd0 (hd (last s))) p"
    by (rule val_step_last_preds)
  have "\<forall>p \<in> set ps'. length p \<noteq> 1"
    and "\<forall>p \<in> set ps'. \<forall>s \<in> set p. length (last s) = 1"
    using Cons.prems(3,4) by (simp_all add: ps)
  with rest rest_ps
  have "last_preds acc' = last_preds acc1 @ map (\<lambda>s. Nd0 (hd (last s))) (concat ps')"
    by (rule Cons.IH)
  with one show ?case by (simp add: ps)
qed

lemma val_step_single_sample:
  assumes "f (fst b) = Inr [s]" and "s \<noteq> []" and "length (last s) = 1"
    and "np_abs_diff ops (snd b) [s] = Inr d"
  shows "val_step ops f acc b = Inl TypeError"
  using assms by (simp add: val_step_def Let_def last_timestep_def squeeze_def)

text \<open>
  Claim C9 says that after a validation pass \<open>last_preds\<close> holds one scalar per
  validation sample, \<open>|test series| - L\<close> of them. For the test series \<open>[0, 1, 2, 3, 4]\<close>,
  \<open>L = 2\<close>, \<open>B = 2\<close> and the model that returns its input, there are three validation
  samples, in batches of two and one; whatever the conversion \<open>c\<close> of the stored values
  and the arithmetic of the libraries, the pass raises \<open>TypeError\<close> at the batch of one
  sample and leaves no list.
\<close>

theorem last_preds_single_sample_batch:
  "create_dataset [0, 1, 2, 3, 4 :: real] 2
     = Inr ([[0, 1], [1, 2], [2, 3]], [[1, 2], [2, 3], [3, 4]])
   \<and> DataLoader_init
       (UCIElectricityDataset_init [[0, 1], [1, 2], [2, 3 :: real]] [[1, 2], [2, 3], [3, 4]] None None) 2
     = Inr \<lparr>dataset =
              UCIElectricityDataset_init [[0, 1], [1, 2], [2, 3]] [[1, 2], [2, 3], [3, 4]] None None,
            batch_size = 2\<rparr>
   \<and> dataloader_iter c
       \<lparr>dataset =
          UCIElectricityDataset_init [[0, 1], [1, 2], [2, 3 :: real]] [[1, 2], [2, 3], [3, 4]] None None,
        batch_size = 2\<rparr>
     = Inr [([[[c 0], [c 1]], [[c 1], [c 2]]], [[[c 1], [c 2]], [[c 2], [c 3]]]),
            ([[[c 2], [c 3]]], [[[c 3], [c 4]]])]
   \<and> validation_pass ops (\<lambda>x. Inr x)
       [([[[c 0], [c 1]], [[c 1], [c 2]]], [[[c 1], [c 2]], [[c 2], [c 3]]]),
        ([[[c 2], [c 3]]], [[[c 3], [c 4]]])]
     = Inl TypeError"
proof (intro conjI)
  show "create_dataset [0, 1, 2, 3, 4 :: real] 2
     = Inr ([[0, 1], [1, 2], [2, 3]], [[1, 2], [2, 3], [3, 4]])"
    by (simp add: create_dataset_def py_range_def py_slice_def slice_bound_def Let_def upt_rec)
  show "DataLoader_init
       (UCIElectricityDataset_init [[0, 1], [1, 2], [2, 3 :: real]] [[1, 2], [2, 3], [3, 4]] None None) 2
     = Inr \<lparr>dataset =
              UCIElectricityDataset_init [[0, 1], [1, 2], [2, 3]] [[1, 2], [2, 3], [3, 4]] None None,
            batch_size = 2\<rparr>"
    by (simp add: DataLoader_init_def)
  have idx: "py_range 3 = [0, 1, 2]"
    by (simp add: py_range_def upt_rec)
  have bs: "batch_sampler 2 [0, 1, 2 :: int] = [[0, 1], [2]]"
    by (simp add: batch_sampler_Cons batch_sampler_Nil)
  show "dataloader_iter c
       \<lparr>dataset =
          UCIElectricityDataset_init [[0, 1], [1, 2], [2, 3 :: real]] [[1, 2], [2, 3], [3, 4]] None None,
        batch_size = 2\<rparr>
     = Inr [([[[c 0], [c 1]], [[c 1], [c 2]]], [[[c 1], [c 2]], [[c 2], [c 3]]]),
            ([[[c 2], [c 3]]], [[[c 3], [c 4]]])]"
    by (simp add: dataloader_iter_def len_dataset_def UCIElectricityDataset_init_def idx bs
        fetch_def getitem_def py_index_def unsqueeze1_def)
  show "validation_pass ops (\<lambda>x. Inr x)
       [([[[c 0], [c 1]], [[c 1], [c 2]]], [[[c 1], [c 2]], [[c 2], [c 3]]]),
        ([[[c 2], [c 3]]], [[[c 3], [c 4]]])]
     = Inl TypeError"
    by (simp add: validation_pass_def val_step_def np_abs_diff_def broadcast_def np_size_def
      flatten3_def last_timestep_def squeeze_def Let_def)
qed

section \<open>Properties of the train/evaluate loop\<close>

lemma epoch_body_Inr:
  assumes "epoch_body cast ops fwd opt K trl tel st e = Inr st'"
  shows "training_pass cast fwd opt trl Training (model st) = Inr (model st')"
    and "modes st' = modes st @ (if e mod K = K - 1 then [(e, Training), (e, Evaluating)]
                                  else [(e, Training)])"
    and "e mod K = K - 1 \<Longrightarrow>
           \<exists>mae lp. validation cast ops fwd tel Evaluating (model st') = Inr (mae, lp)
                    \<and> mae_vals st' = mae_vals st @ [(e, mae)]"
    and "e mod K \<noteq> K - 1 \<Longrightarrow> mae_vals st' = mae_vals st"
  using assms
  by (auto simp: epoch_body_def Let_def split: sum.splits if_splits prod.splits)

lemma run_epochs_Inr:
  "run_epochs cast ops fwd opt K trl tel st es = Inr st' \<Longrightarrow>
     \<exists>ms vs. length ms = Suc (length es) \<and> ms ! 0 = model st \<and> ms ! length es = model st'
       \<and> (\<forall>k < length es. training_pass cast fwd opt trl Training (ms ! k) = Inr (ms ! Suc k))
       \<and> modes st' = modes st @ concat (map (\<lambda>e. if e mod K = K - 1
                                                   then [(e, Training), (e, Evaluating)]
                                                   else [(e, Training)]) es)
       \<and> mae_vals st' = mae_vals st @ vs
       \<and> map fst vs = filter (\<lambda>e. e mod K = K - 1) es
       \<and> (\<forall>k < length es. es ! k mod K = K - 1 \<longrightarrow>
             (\<exists>mae lp. validation cast ops fwd tel Evaluating (ms ! Suc k) = Inr (mae, lp)
                       \<and> (es ! k, mae) \<in> set vs))"
proof (induction es arbitrary: st)
  case Nil
  then show ?case
    by (intro exI [of _ "[model st]"] exI [of _ "[]"]) simp
next
  case (Cons e es)
  from Cons.prems obtain st1 where body: "epoch_body cast ops fwd opt K trl tel st e = Inr st1"
    and rest: "run_epochs cast ops fwd opt K trl tel st1 es = Inr st'"
    by (auto split: sum.splits)
  note b = epoch_body_Inr [OF body]
  from Cons.IH [OF rest] obtain ms vs where
    len: "length ms = Suc (length es)" and first: "ms ! 0 = model st1"
    and final: "ms ! length es = model st'"
    and tr: "\<forall>k < length es. training_pass cast fwd opt trl Training (ms ! k) = Inr (ms ! Suc k)"
    and md: "modes st' = modes st1 @ concat (map (\<lambda>e. if e mod K = K - 1
                                                   then [(e, Training), (e, Evaluating)]
                                                   else [(e, Training)]) es)"
    and mv: "mae_vals st' = mae_vals st1 @ vs"
    and ep: "map fst vs = filter (\<lambda>e. e mod K = K - 1) es"
    and va: "\<forall>k < length es. es ! k mod K = K - 1 \<longrightarrow>
             (\<exists>mae lp. validation cast ops fwd tel Evaluating (ms ! Suc k) = Inr (mae, lp)
                       \<and> (es ! k, mae) \<in> set vs)"
    by blast
  obtain v0 where v0: "mae_vals st1 = mae_vals st @ v0"
    and v0_eval: "e mod K = K - 1 \<Longrightarrow>
           \<exists>mae lp. validation cast ops fwd tel Evaluating (model st1) = Inr (mae, lp)
                    \<and> v0 = [(e, mae)]"
    and v0_none: "e mod K \<noteq> K - 1 \<Longrightarrow> v0 = []"
  proof (cases "e mod K = K - 1")
    case True
    from b(3) [OF True] obtain mae lp where
      "validation cast ops fwd tel Evaluating (model st1) = Inr (mae, lp)"
      and "mae_vals st1 = mae_vals st @ [(e, mae)]"
      by blast
    with True that [of "[(e, mae)]"] show ?thesis by blast
  next
    case False
    with b(4) that [of "[]"] show ?thesis by simp
  qed
  let ?ms = "model st # ms"
  let ?vs = "v0 @ vs"
  have 1: "length ?ms = Suc (length (e # es))"
    using len by simp
  have 2: "?ms ! 0 = model st"
    by simp
  have 3: "?ms ! length (e # es) = model st'"
    using final by simp
  have 4: "\<forall>k < length (e # es).
             training_pass cast fwd opt trl Training (?ms ! k) = Inr (?ms ! Suc k)"
  proof (intro allI impI)
    fix k assume "k < length (e # es)"
    then show "training_pass cast fwd opt trl Training (?ms ! k) = Inr (?ms ! Suc k)"
      using b(1) first tr by (cases k) simp_all
  qed
  have 5: "modes st' = modes st @ concat (map (\<lambda>e. if e mod K = K - 1
                                                   then [(e, Training), (e, Evaluating)]
                                                   else [(e, Training)]) (e # es))"
    using md b(2) by simp
  have 6: "mae_vals st' = mae_vals st @ ?vs"
    using mv v0 by simp
  have 7: "map fst ?vs = filter (\<lambda>e. e mod K = K - 1) (e # es)"
  proof (cases "e mod K = K - 1")
    case True
    with v0_eval obtain mae where "v0 = [(e, mae)]" by blast
    with True ep show ?thesis by simp
  next
    case False
    with v0_none ep show ?thesis by simp
  qed
  have 8: "\<forall>k < length (e # es). (e # es) ! k mod K = K - 1 \<longrightarrow>
             (\<exists>mae lp. validation cast ops fwd tel Evaluating (?ms ! Suc k) = Inr (mae, lp)
                       \<and> ((e # es) ! k, mae) \<in> set ?vs)"
  proof (intro allI impI)
    fix k assume k: "k < length (e # es)" and P: "(e # es) ! k mod K = K - 1"
    show "\<exists>mae lp. validation cast ops fwd tel Evaluating (?ms ! Suc k) = Inr (mae, lp)
                       \<and> ((e # es) ! k, mae) \<in> set ?vs"
    proof (cases k)
      case 0
      with P v0_eval obtain mae lp where
        "validation cast ops fwd tel Evaluating (model st1) = Inr (mae, lp)" and "v0 = [(e, mae)]"
        by auto
      with 0 first show ?thesis by auto
    next
      case (Suc j)
      with k P va obtain mae lp where
        "validation cast ops fwd tel Evaluating (ms ! Suc j) = Inr (mae, lp)"
        and "(es ! j, mae) \<in> set vs"
        by auto
      with Suc show ?thesis by auto
    qed
  qed
  show ?case
    using 1 2 3 4 5 6 7 8 by (intro exI [of _ ?ms] exI [of _ ?vs] conjI)
qed

lemma epoch_body_completes:
  assumes "K \<noteq> 0"
    and "\<forall>m. \<exists>m'. training_pass cast fwd opt trl Training m = Inr m'"
    and "\<forall>m. \<exists>r. validation cast ops fwd tel Evaluating m = Inr r"
  shows "\<exists>st'. epoch_body cast ops fwd opt K trl tel st e = Inr st'"
proof -
  have "\<exists>m'. training_pass cast fwd opt trl Training (model st) = Inr m'"
    using assms(2) by (rule spec)
  then obtain m' where tp: "training_pass cast fwd opt trl Training (model st) = Inr m'"
    by blast
  have "\<exists>r. validation cast ops fwd tel Evaluating m' = Inr r"
    using assms(3) by (rule spec)
  then obtain mae lp where "validation cast ops fwd tel Evaluating m' = Inr (mae, lp)"
    by auto
  with tp assms(1) show ?thesis
    by (simp add: epoch_body_def Let_def)
qed

lemma run_epochs_completes:
  assumes "K \<noteq> 0"
    and "\<forall>m. \<exists>m'. training_pass cast fwd opt trl Training m = Inr m'"
    and "\<forall>m. \<exists>r. validation cast ops fwd tel Evaluating m = Inr r"
  shows "\<exists>st'. run_epochs cast ops fwd opt K trl tel st es = Inr st'"
proof (induction es arbitrary: st)
  case Nil
  show ?case by simp
next
  case (Cons e es)
  obtain st1 where "epoch_body cast ops fwd opt K trl tel st e = Inr st1"
    using epoch_body_completes [OF assms, where st = st and e = e] by blast
  moreover obtain st' where "run_epochs cast ops fwd opt K trl tel st1 es = Inr st'"
    using Cons.IH [of st1] by blast
  ultimately show ?case by simp
qed

lemma example_dataloader_iter:
  "dataloader_iter (\<lambda>v. v)
         \<lparr>dataset = \<lparr>target = [[1, 2], [2, 3], [3, 4], [4, 5 :: real]],
                     features = [[0, 1], [1, 2], [2, 3], [3, 4]],
                     transform = None, target_transform = None\<rparr>,
          batch_size = 2\<rparr>
     = Inr [([[[0], [1]], [[1], [2]]], [[[1], [2]], [[2], [3]]]),
          ([[[2], [3]], [[3], [4]]], [[[3], [4]], [[4], [5]]])]"
proof -
  have idx: "py_range 4 = [0, 1, 2, 3]"
    by (simp add: py_range_def upt_rec)
  have bs: "batch_sampler 2 [0, 1, 2, 3 :: int] = [[0, 1], [2, 3]]"
    by (simp add: batch_sampler_Cons batch_sampler_Nil)
  show ?thesis
    by (simp add: dataloader_iter_def len_dataset_def idx bs fetch_def getitem_def py_index_def
        unsqueeze1_def)
qed

lemma example_training_pass:
  "training_pass (\<lambda>v. v) (\<lambda>md m x. Inr x) (\<lambda>m p y. Inr (Suc m))
         \<lparr>dataset = \<lparr>target = [[1, 2], [2, 3], [3, 4], [4, 5 :: real]],
                     features = [[0, 1], [1, 2], [2, 3], [3, 4]],
                     transform = None, target_transform = None\<rparr>,
          batch_size = 2\<rparr>
         md m
     = Inr (Suc (Suc m))"
  by (simp add: training_pass_def example_dataloader_iter train_batch_def)

lemma example_validation:
  "validation (\<lambda>v. v)
         \<lparr>np_abs_sub = (\<lambda>a b. \<bar>a - b\<bar>), np_sum_all = (\<lambda>t. sum_list (flatten3 t)),
            np_radd_int = (\<lambda>i s. real_of_int i + s), np_add = (\<lambda>s t. s + t),
            np_truediv = (\<lambda>s n. s / real n)\<rparr>
         (\<lambda>md m x. Inr x)
         \<lparr>dataset = \<lparr>target = [[1, 2], [2, 3], [3, 4], [4, 5 :: real]],
                     features = [[0, 1], [1, 2], [2, 3], [3, 4]],
                     transform = None, target_transform = None\<rparr>,
          batch_size = 2\<rparr>
         md m
     = Inr (1, [Nd0 1, Nd0 2, Nd0 3, Nd0 4])"
  by (simp add: validation_def example_dataloader_iter validation_pass_def val_step_def
      np_abs_diff_def broadcast_def np_size_def flatten3_def last_timestep_def squeeze_def Let_def)




end
